theory Spec2Isabelle
  imports Main "HOL-Library.Multiset"
begin

section \<open>Haystack.js: a fuzzy text-matching engine\<close>

text \<open>
  The development embeds \<^verbatim>\<open>src/Haystack.js\<close>. JavaScript strings are modelled as
  \<^typ>\<open>string\<close> (lists of characters), arrays of strings as lists, and a plain object
  used as a mapping as the list of its properties in the order in which
  \<^verbatim>\<open>for (key in source)\<close> enumerates them.
\<close>

subsection \<open>JavaScript numbers that may be undefined\<close>

text \<open>
  \<^verbatim>\<open>levenshtein\<close> returns a number or, through a bare \<^verbatim>\<open>return;\<close>,
  \<^verbatim>\<open>undefined\<close>; a cell of its cost table that was never assigned reads as
  \<^verbatim>\<open>undefined\<close> as well, and arithmetic on \<^verbatim>\<open>undefined\<close> gives \<^verbatim>\<open>NaN\<close>.
  Every relational comparison with \<^verbatim>\<open>undefined\<close> or \<^verbatim>\<open>NaN\<close> is false, so
  both are the one value \<open>None\<close>; \<open>Some k\<close> is the number \<open>k\<close>.
\<close>

type_synonym jsnum = "nat option"

fun js_lt :: "jsnum \<Rightarrow> jsnum \<Rightarrow> bool" where
  "js_lt (Some a) (Some b) = (a < b)"
| "js_lt _ _ = False"

fun js_gt :: "jsnum \<Rightarrow> jsnum \<Rightarrow> bool" where
  "js_gt (Some a) (Some b) = (a > b)"
| "js_gt _ _ = False"

fun js_le :: "jsnum \<Rightarrow> jsnum \<Rightarrow> bool" where
  "js_le (Some a) (Some b) = (a \<le> b)"
| "js_le _ _ = False"

fun js_ge :: "jsnum \<Rightarrow> jsnum \<Rightarrow> bool" where
  "js_ge (Some a) (Some b) = (a \<ge> b)"
| "js_ge _ _ = False"

text \<open>\<^verbatim>\<open>1 + v\<close>: a number for a number, \<^verbatim>\<open>NaN\<close> otherwise.\<close>

fun js_add1 :: "jsnum \<Rightarrow> jsnum" where
  "js_add1 (Some a) = Some (1 + a)"
| "js_add1 None = None"

subsection \<open>The edit distance calculator\<close>

text \<open>\<^verbatim>\<open>s.charAt(i)\<close>: the one-character string at index \<open>i\<close>, the empty string
  when \<open>i\<close> is out of range.\<close>

definition charAt :: "string \<Rightarrow> nat \<Rightarrow> string" where
  "charAt s i = (if i < length s then [s ! i] else [])"

text \<open>The local helper \<^verbatim>\<open>minimum(a, b, c)\<close> of \<^verbatim>\<open>levenshtein\<close>.\<close>

definition minimum :: "jsnum \<Rightarrow> jsnum \<Rightarrow> jsnum \<Rightarrow> jsnum" where
  "minimum a b c =
     (let min1 = a;
          min2 = (if js_lt b min1 then b else min1);
          min3 = (if js_lt c min2 then c else min2)
      in min3)"

text \<open>
  The cost table \<^verbatim>\<open>cost[i][j]\<close>: a JavaScript array of arrays, read as the function
  from a pair of indices to the stored number, \<open>None\<close> for a cell never assigned.
  The first loop of \<^verbatim>\<open>levenshtein\<close> creates the rows \<open>0..n\<close> empty: that is
  \<open>new_cost\<close>. The code never touches a row beyond \<open>n\<close>.
\<close>

type_synonym cost_table = "nat \<Rightarrow> nat \<Rightarrow> jsnum"

definition new_cost :: cost_table where
  "new_cost = (\<lambda>i j. None)"

text \<open>\<^verbatim>\<open>cost[i][j] = v\<close>\<close>

definition set_cost :: "cost_table \<Rightarrow> nat \<Rightarrow> nat \<Rightarrow> jsnum \<Rightarrow> cost_table" where
  "set_cost cost i j v = cost(i := (cost i)(j := v))"

text \<open>\<^verbatim>\<open>for (i = 0; i <= n; i++) cost[i][0] = i;\<close>\<close>

definition init_column :: "nat \<Rightarrow> cost_table \<Rightarrow> cost_table" where
  "init_column n cost = fold (\<lambda>i c. set_cost c i 0 (Some i)) [0..<Suc n] cost"

text \<open>\<^verbatim>\<open>for (j = 0; j <= m; j++) cost[0][j] = j;\<close>\<close>

definition init_row :: "nat \<Rightarrow> cost_table \<Rightarrow> cost_table" where
  "init_row m cost = fold (\<lambda>j c. set_cost c 0 j (Some j)) [0..<Suc m] cost"

text \<open>The body of the inner loop, for the character \<open>x\<close> of row \<open>i\<close>, at column \<open>j\<close>.\<close>

definition fill_cell :: "string \<Rightarrow> string \<Rightarrow> nat \<Rightarrow> nat \<Rightarrow> cost_table \<Rightarrow> cost_table" where
  "fill_cell str2 x i j cost =
     (let y = charAt str2 (j - 1) in
      if x = y then set_cost cost i j (cost (i - 1) (j - 1))
      else set_cost cost i j
             (js_add1 (minimum (cost (i - 1) (j - 1)) (cost i (j - 1)) (cost (i - 1) j))))"

text \<open>\<^verbatim>\<open>for (j = 1; j <= m; j++) { ... }\<close>\<close>

definition fill_row :: "string \<Rightarrow> nat \<Rightarrow> string \<Rightarrow> nat \<Rightarrow> cost_table \<Rightarrow> cost_table" where
  "fill_row str2 m x i cost = fold (fill_cell str2 x i) [1..<Suc m] cost"

text \<open>\<^verbatim>\<open>for (i = 1; i <= n; i++) { var x = str1.charAt(i - 1); ... }\<close>\<close>

definition fill_table :: "string \<Rightarrow> string \<Rightarrow> nat \<Rightarrow> nat \<Rightarrow> cost_table \<Rightarrow> cost_table" where
  "fill_table str1 str2 n m cost =
     fold (\<lambda>i c. fill_row str2 m (charAt str1 (i - 1)) i c) [1..<Suc n] cost"

text \<open>
  \<^verbatim>\<open>levenshtein(word1, word2)\<close>. As in the source, both \<open>n\<close> and \<open>m\<close> are the length
  of \<open>word1\<close> (\<^verbatim>\<open>n = str1.length, m = word1.length\<close>). The result \<open>None\<close> is
  \<^verbatim>\<open>undefined\<close>.
\<close>

definition levenshtein :: "string \<Rightarrow> string \<Rightarrow> jsnum" where
  "levenshtein word1 word2 =
     (let str1 = word1;
          str2 = word2;
          n = length str1;
          m = length word1
      in if n = 0 then None
         else if m = 0 then None
         else (let cost = fill_table str1 str2 n m (init_row m (init_column n new_cost))
               in cost n m))"


subsection \<open>String and array primitives of the host language\<close>

text \<open>
  \<^verbatim>\<open>s.toLowerCase()\<close>. A character of a \<^typ>\<open>string\<close> is one code unit below 256
  (Latin-1). The upper-case letters among them are \<open>A\<close> to \<open>Z\<close> and the codes
  \<open>0xC0\<close> to \<open>0xDE\<close> without \<open>0xD7\<close>, the multiplication sign; each has its
  lower-case form 32 places higher, and every other character is left as it is.
\<close>

definition upper_case :: "char list" where
  "upper_case = ''ABCDEFGHIJKLMNOPQRSTUVWXYZ'' @
     [CHR 0xC0, CHR 0xC1, CHR 0xC2, CHR 0xC3, CHR 0xC4, CHR 0xC5, CHR 0xC6, CHR 0xC7,
      CHR 0xC8, CHR 0xC9, CHR 0xCA, CHR 0xCB, CHR 0xCC, CHR 0xCD, CHR 0xCE, CHR 0xCF,
      CHR 0xD0, CHR 0xD1, CHR 0xD2, CHR 0xD3, CHR 0xD4, CHR 0xD5, CHR 0xD6, CHR 0xD8,
      CHR 0xD9, CHR 0xDA, CHR 0xDB, CHR 0xDC, CHR 0xDD, CHR 0xDE]"

definition lower_case :: "char list" where
  "lower_case = ''abcdefghijklmnopqrstuvwxyz'' @
     [CHR 0xE0, CHR 0xE1, CHR 0xE2, CHR 0xE3, CHR 0xE4, CHR 0xE5, CHR 0xE6, CHR 0xE7,
      CHR 0xE8, CHR 0xE9, CHR 0xEA, CHR 0xEB, CHR 0xEC, CHR 0xED, CHR 0xEE, CHR 0xEF,
      CHR 0xF0, CHR 0xF1, CHR 0xF2, CHR 0xF3, CHR 0xF4, CHR 0xF5, CHR 0xF6, CHR 0xF8,
      CHR 0xF9, CHR 0xFA, CHR 0xFB, CHR 0xFC, CHR 0xFD, CHR 0xFE]"

definition lower_char :: "char \<Rightarrow> char" where
  "lower_char c =
     (case map_of (zip upper_case lower_case) c of
        Some l \<Rightarrow> l
      | None \<Rightarrow> c)"

definition toLowerCase :: "string \<Rightarrow> string" where
  "toLowerCase s = map lower_char s"

text \<open>\<^verbatim>\<open>s.trim()\<close>: white space and line terminators removed from both ends. Below
  256 these are tab, line feed, vertical tab, form feed, carriage return, space and the
  no-break space (160).\<close>

definition is_whitespace :: "char \<Rightarrow> bool" where
  "is_whitespace c = ((of_char c :: nat) \<in> {9, 10, 11, 12, 13, 32, 160})"

definition trim :: "string \<Rightarrow> string" where
  "trim s = rev (dropWhile is_whitespace (rev (dropWhile is_whitespace s)))"

text \<open>\<^verbatim>\<open>s.split(d)\<close> for a one-character delimiter: never an empty array, empty
  pieces are kept.\<close>

fun split :: "char \<Rightarrow> string \<Rightarrow> string list" where
  "split d [] = [[]]"
| "split d (c # cs) =
     (if c = d then [] # split d cs
      else (case split d cs of
              [] \<Rightarrow> [[c]]
            | piece # pieces \<Rightarrow> (c # piece) # pieces))"

text \<open>\<^verbatim>\<open>arr.join(sep)\<close> on an array of strings.\<close>

fun join :: "string \<Rightarrow> string list \<Rightarrow> string" where
  "join sep [] = []"
| "join sep [x] = x"
| "join sep (x # y # ys) = x @ sep @ join sep (y # ys)"

text \<open>\<^verbatim>\<open>s.indexOf(q)\<close>: the first position where \<open>q\<close> occurs in \<open>s\<close>, or \<open>-1\<close>.\<close>

fun indexOf :: "string \<Rightarrow> string \<Rightarrow> int" where
  "indexOf [] q = (if q = [] then 0 else - 1)"
| "indexOf (c # cs) q =
     (if take (length q) (c # cs) = q then 0
      else (let r = indexOf cs q in if r = - 1 then - 1 else 1 + r))"

text \<open>\<^verbatim>\<open>arr.indexOf(item)\<close>: the first index holding \<open>item\<close>, or \<open>-1\<close>.\<close>

fun array_indexOf :: "'a list \<Rightarrow> 'a \<Rightarrow> int" where
  "array_indexOf [] item = - 1"
| "array_indexOf (y # ys) item =
     (if y = item then 0
      else (let r = array_indexOf ys item in if r = - 1 then - 1 else 1 + r))"

text \<open>\<^verbatim>\<open>arr[i]\<close>: \<^verbatim>\<open>undefined\<close> (\<open>None\<close>) past the end.\<close>

definition at :: "'a list \<Rightarrow> nat \<Rightarrow> 'a option" where
  "at arr i = (if i < length arr then Some (arr ! i) else None)"

text \<open>Truthiness of a string or \<^verbatim>\<open>undefined\<close>: only a non-empty string is truthy.\<close>

fun truthy :: "string option \<Rightarrow> bool" where
  "truthy None = False"
| "truthy (Some s) = (s \<noteq> [])"

text \<open>
  \<^verbatim>\<open>arr.slice(0, limit)\<close> for an integer \<open>limit\<close>: a negative \<open>limit\<close> counts from
  the end of the array.
\<close>

definition slice0 :: "'a list \<Rightarrow> int \<Rightarrow> 'a list" where
  "slice0 arr limit =
     (let len = int (length arr);
          final = (if limit < 0 then max (len + limit) 0 else min limit len)
      in take (nat final) arr)"

text \<open>
  \<^verbatim>\<open>results == ""\<close>, an array compared with a string by \<^verbatim>\<open>==\<close>: the array is
  converted to the string \<^verbatim>\<open>results.join(",")\<close>, and the two strings are compared.
\<close>

definition loose_eq_string :: "string list \<Rightarrow> string \<Rightarrow> bool" where
  "loose_eq_string arr s = (join '','' arr = s)"

subsection \<open>Tokenizer and stop words\<close>

text \<open>\<^verbatim>\<open>Haystack.prototype.tokenize(input, delimiter = " ")\<close>, for a delimiter of one
  character; \<open>tokenize_default\<close> is the call with the delimiter left out.\<close>

definition tokenize :: "string \<Rightarrow> char \<Rightarrow> string list" where
  "tokenize input delimiter = split delimiter input"

definition tokenize_default :: "string \<Rightarrow> string list" where
  "tokenize_default input = tokenize input (CHR '' '')"

definition stop_words :: "string list" where
  "stop_words = [''the'', ''a'', ''to'', ''on'', ''in'', ''is'', ''and'']"

text \<open>\<^verbatim>\<open>removeStopWords(query)\<close>: a stop word is overwritten with
  \<^verbatim>\<open>undefined\<close>, the defined entries are joined again.\<close>

definition removeStopWords :: "string \<Rightarrow> string" where
  "removeStopWords query =
     (let words = split (CHR '' '') query;
          marked = map (\<lambda>w. if toLowerCase w \<in> set stop_words then None else Some w) words;
          newQuery = List.map_filter (\<lambda>w. w) marked
      in join '' '' newQuery)"


subsection \<open>Configuration and sources\<close>

text \<open>
  The options of an engine instance. \<open>exclusions\<close> is \<open>None\<close> for \<^verbatim>\<open>null\<close>;
  otherwise it carries the pattern as what it does to a query, the function
  \<^verbatim>\<open>query.replace(exclusions, "")\<close>.
\<close>

record options =
  caseSensitive :: bool
  flexibility :: nat
  stemming :: bool
  exclusions :: "(string \<Rightarrow> string) option"
  ignoreStopWords :: bool

definition defaults :: options where
  "defaults = \<lparr> caseSensitive = False, flexibility = 2, stemming = False,
                 exclusions = None, ignoreStopWords = False \<rparr>"

text \<open>
  What a caller may pass as \<^verbatim>\<open>source\<close>: an array of strings; a plain object (one
  whose prototype is \<^verbatim>\<open>Object.prototype\<close>), given by its own enumerable data
  properties in enumeration order; or anything else. A property is its key, its string
  value and whether it is writable: a property of a frozen object, or one defined
  with \<^verbatim>\<open>writable: false\<close>, is not.
\<close>

type_synonym property = "string \<times> string \<times> bool"

datatype source = Array "string list" | Object "property list" | Unsupported

text \<open>
  \<^verbatim>\<open>getDataType(source)\<close> compares \<^verbatim>\<open>source.constructor\<close> with \<^verbatim>\<open>Array\<close> and
  \<^verbatim>\<open>Object\<close>. For a plain object that is \<^verbatim>\<open>Object\<close>, unless the object has a
  property of its own under the key \<^verbatim>\<open>constructor\<close>: its value, a string, is then
  what is compared, and the result is \<^verbatim>\<open>null\<close>.
\<close>

fun getDataType :: "source \<Rightarrow> string option" where
  "getDataType (Array xs) = Some ''array''"
| "getDataType (Object kvs) =
     (if ''constructor'' \<in> set (map fst kvs) then None else Some ''object'')"
| "getDataType Unsupported = None"

text \<open>The elements of an array source and the properties of an object source.\<close>

fun elements :: "source \<Rightarrow> string list" where
  "elements (Array xs) = xs"
| "elements (Object kvs) = []"
| "elements Unsupported = []"

fun properties :: "source \<Rightarrow> property list" where
  "properties (Array xs) = []"
| "properties (Object kvs) = kvs"
| "properties Unsupported = []"

text \<open>The candidate strings of a source.\<close>

fun candidates :: "source \<Rightarrow> string list" where
  "candidates (Array xs) = xs"
| "candidates (Object kvs) = map (\<lambda>(key, value, writable). value) kvs"
| "candidates Unsupported = []"

text \<open>
  The candidates that case folding replaces by their lower-case forms, and those it
  leaves as they are: \<^verbatim>\<open>map\<close> lower-cases every element of an array, and the
  assignment \<^verbatim>\<open>source[key] = ...\<close> changes a writable property only.
\<close>

fun folded_candidates :: "source \<Rightarrow> string list" where
  "folded_candidates (Array xs) = xs"
| "folded_candidates (Object kvs) =
     map (\<lambda>(key, value, writable). value) (filter (\<lambda>(key, value, writable). writable) kvs)"
| "folded_candidates Unsupported = []"

fun kept_candidates :: "source \<Rightarrow> string list" where
  "kept_candidates (Array xs) = []"
| "kept_candidates (Object kvs) =
     map (\<lambda>(key, value, writable). value) (filter (\<lambda>(key, value, writable). \<not> writable) kvs)"
| "kept_candidates Unsupported = []"

datatype error = TypeError

subsection \<open>Ranking and deduplication\<close>

text \<open>The test of \<^verbatim>\<open>sortResults\<close> that guards a swap of the entries \<open>i\<close> and
  \<open>i + 1\<close>.\<close>

definition out_of_order :: "string list \<Rightarrow> string \<Rightarrow> nat \<Rightarrow> bool" where
  "out_of_order results query i =
     (truthy (at results i) \<and> truthy (at results (i + 1)) \<and>
      js_gt (levenshtein query (results ! i)) (levenshtein query (results ! (i + 1))))"

text \<open>The body of the \<^verbatim>\<open>for\<close> loop of \<^verbatim>\<open>sortResults\<close>, on the array and the flag
  \<^verbatim>\<open>swapped\<close>.\<close>

definition sort_step :: "string \<Rightarrow> nat \<Rightarrow> string list \<times> bool \<Rightarrow> string list \<times> bool" where
  "sort_step query i st =
     (case st of (results, swapped) \<Rightarrow>
        if out_of_order results query i
        then (let temp = results ! i;
                  results1 = results[i := results ! (i + 1)];
                  results2 = results1[i + 1 := temp]
              in (results2, True))
        else (results, swapped))"

text \<open>One run of the \<^verbatim>\<open>do\<close> body: \<^verbatim>\<open>swapped = false\<close>, then the \<^verbatim>\<open>for\<close> loop
  over \<open>0 \<le> i < results.length\<close>.\<close>

definition sort_pass :: "string list \<Rightarrow> string \<Rightarrow> string list \<times> bool" where
  "sort_pass results query = fold (sort_step query) [0..<length results] (results, False)"

text \<open>
  \<^verbatim>\<open>sortResults\<close> repeats its pass until no swap happens. It terminates because a
  swap exchanges two neighbours whose distances to the query are numbers in strictly
  descending order, which removes one inversion of the list of distances. The distance
  of an entry as a natural number (0 where \<^verbatim>\<open>levenshtein\<close> is undefined) and the
  number of inversions are the measure.
\<close>

definition distance_key :: "string \<Rightarrow> string \<Rightarrow> nat" where
  "distance_key query r = (case levenshtein query r of Some d \<Rightarrow> d | None \<Rightarrow> 0)"

fun inversions :: "nat list \<Rightarrow> nat" where
  "inversions [] = 0"
| "inversions (x # xs) = length (filter (\<lambda>y. y < x) xs) + inversions xs"

lemma inversions_swap:
  "b < a \<Longrightarrow> inversions (p @ a # b # s) = Suc (inversions (p @ b # a # s))"
  by (induction p) auto

lemma swap_as_append:
  assumes "Suc i < length xs"
  shows "xs = take i xs @ xs ! i # xs ! Suc i # drop (Suc (Suc i)) xs"
    and "xs[i := xs ! Suc i, Suc i := xs ! i] = take i xs @ xs ! Suc i # xs ! i # drop (Suc (Suc i)) xs"
proof -
  have i: "i < length xs" using assms by simp
  show a: "xs = take i xs @ xs ! i # xs ! Suc i # drop (Suc (Suc i)) xs"
    using assms i by (metis Cons_nth_drop_Suc append_take_drop_id)
  have len: "length (take i xs) = i" using i by simp
  have "xs[i := xs ! Suc i, Suc i := xs ! i] =
        (take i xs @ xs ! i # xs ! Suc i # drop (Suc (Suc i)) xs)[i := xs ! Suc i, Suc i := xs ! i]"
    using a by simp
  also have "\<dots> = take i xs @ xs ! Suc i # xs ! i # drop (Suc (Suc i)) xs"
    using len by (simp add: list_update_append)
  finally show "xs[i := xs ! Suc i, Suc i := xs ! i] = take i xs @ xs ! Suc i # xs ! i # drop (Suc (Suc i)) xs" .
qed

lemma out_of_order_D:
  "out_of_order results query i \<Longrightarrow>
     Suc i < length results \<and> results ! i \<noteq> [] \<and> results ! Suc i \<noteq> [] \<and>
     distance_key query (results ! Suc i) < distance_key query (results ! i)"
  by (auto simp: out_of_order_def at_def distance_key_def split: if_splits option.splits
           elim!: js_gt.elims)

lemma swap_inversions:
  assumes "Suc i < length ks" "ks ! Suc i < ks ! i"
  shows "inversions ks = Suc (inversions (ks[i := ks ! Suc i, Suc i := ks ! i]))"
proof -
  have "inversions ks = inversions (take i ks @ ks ! i # ks ! Suc i # drop (Suc (Suc i)) ks)"
    using swap_as_append(1)[OF assms(1)] by simp
  also have "\<dots> = Suc (inversions (take i ks @ ks ! Suc i # ks ! i # drop (Suc (Suc i)) ks))"
    using assms(2) by (rule inversions_swap)
  finally show ?thesis using swap_as_append(2)[OF assms(1)] by simp
qed

lemma sort_step_measure:
  assumes "sort_step query i (rs, sw) = (rs', sw')"
  shows "length rs' = length rs \<and> mset rs' = mset rs \<and>
         inversions (map (distance_key query) rs') \<le> inversions (map (distance_key query) rs) \<and>
         (sw' \<longrightarrow> sw \<or> inversions (map (distance_key query) rs') < inversions (map (distance_key query) rs))"
proof (cases "out_of_order rs query i")
  case False
  then show ?thesis using assms by (simp add: sort_step_def)
next
  case True
  note d = out_of_order_D[OF True]
  have rs': "rs' = rs[i := rs ! Suc i, Suc i := rs ! i]"
    using assms True by (simp add: sort_step_def Let_def)
  let ?ks = "map (distance_key query) rs"
  have "map (distance_key query) rs' = ?ks[i := ?ks ! Suc i, Suc i := ?ks ! i]"
    using d by (simp add: rs' map_update)
  moreover have "inversions ?ks = Suc (inversions (?ks[i := ?ks ! Suc i, Suc i := ?ks ! i]))"
    using d by (intro swap_inversions) auto
  moreover have "mset rs' = mset rs"
    using d by (simp add: rs' mset_swap)
  ultimately show ?thesis by (simp add: rs')
qed

lemma sort_fold_measure:
  "fold (sort_step query) is (rs, sw) = (rs', sw') \<Longrightarrow>
     length rs' = length rs \<and> mset rs' = mset rs \<and>
     inversions (map (distance_key query) rs') \<le> inversions (map (distance_key query) rs) \<and>
     (sw' \<longrightarrow> sw \<or> inversions (map (distance_key query) rs') < inversions (map (distance_key query) rs))"
proof (induction "is" arbitrary: rs sw)
  case Nil
  then show ?case by simp
next
  case (Cons i "is")
  obtain rs1 sw1 where s: "sort_step query i (rs, sw) = (rs1, sw1)" by (cases "sort_step query i (rs, sw)")
  from Cons.prems s have "fold (sort_step query) is (rs1, sw1) = (rs', sw')" by simp
  from Cons.IH[OF this] sort_step_measure[OF s] show ?case by auto
qed

lemma sort_pass_measure:
  "sort_pass rs query = (rs', True) \<Longrightarrow>
     inversions (map (distance_key query) rs') < inversions (map (distance_key query) rs)"
  unfolding sort_pass_def by (drule sort_fold_measure) simp

text \<open>\<^verbatim>\<open>sortResults(results, query)\<close>: \<^verbatim>\<open>do { ... } while (swapped)\<close>.\<close>

function sortResults :: "string list \<Rightarrow> string \<Rightarrow> string list" where
  "sortResults results query =
     (case sort_pass results query of
        (results', swapped) \<Rightarrow> if swapped then sortResults results' query else results')"
  by pat_completeness auto
termination
proof (relation "measure (\<lambda>(results, query). inversions (map (distance_key query) results))")
  show "wf (measure (\<lambda>(results, query). inversions (map (distance_key query) results)))" by simp
next
  fix results query x1 x2 
  assume "(x1, x2) = sort_pass results query" "x2"
  then have "sort_pass results query = (x1, True)" by simp
  from sort_pass_measure[OF this]
  show "((x1, query), results, query) \<in> measure (\<lambda>(results, query). inversions (map (distance_key query) results))"
    by simp
qed


declare sortResults.simps [simp del]

text \<open>\<^verbatim>\<open>createUniqueArray(arr)\<close>: the entries whose first index in \<open>arr\<close> is their own.\<close>

definition createUniqueArray :: "string list \<Rightarrow> string list" where
  "createUniqueArray arr =
     map fst (filter (\<lambda>(item, pos). array_indexOf arr item = int pos)
                     (zip arr [0..<length arr]))"

subsection \<open>Similar words\<close>

text \<open>
  \<^verbatim>\<open>filter(fn, source, bind)\<close> keeps the words for which the callback returns a
  truthy value. The callback returns a string or \<^verbatim>\<open>undefined\<close> (\<open>None\<close>).
\<close>

definition filter_fn :: "(string \<Rightarrow> string option) \<Rightarrow> string list \<Rightarrow> string list" where
  "filter_fn fn source = filter (\<lambda>word. truthy (fn word)) source"

text \<open>The callback of \<^verbatim>\<open>getSimilarWords\<close>.\<close>

definition within_threshold :: "string \<Rightarrow> nat \<Rightarrow> string \<Rightarrow> string option" where
  "within_threshold input threshold sourceWord =
     (let levDist = levenshtein input sourceWord in
      if js_ge levDist (Some 0) \<and> js_le levDist (Some threshold) then Some sourceWord
      else None)"

text \<open>\<^verbatim>\<open>getSimilarWords(input, source, limit, threshold)\<close> as \<^verbatim>\<open>search\<close> calls it,
  with \<^verbatim>\<open>limit\<close> \<^verbatim>\<open>null\<close>: the sorted matches are returned whole.\<close>

definition getSimilarWords :: "string \<Rightarrow> string list \<Rightarrow> nat \<Rightarrow> string list" where
  "getSimilarWords input source threshold =
     (let matches = filter_fn (within_threshold input threshold) source
      in sortResults matches input)"

subsection \<open>The search facade\<close>

text \<open>
  The state of one call of \<^verbatim>\<open>search\<close> after the query is prepared: the local
  variables \<^verbatim>\<open>query\<close>, \<^verbatim>\<open>tokens\<close> (\<open>None\<close> while it is \<^verbatim>\<open>undefined\<close>) and
  \<^verbatim>\<open>source\<close>, and \<open>caller_source\<close>, the value the caller's own reference to the
  source holds. \<^verbatim>\<open>source.map(...)\<close> builds a new array and binds the local variable
  to it; \<^verbatim>\<open>source[key] = ...\<close> writes into the object the caller passed.
\<close>

record prepared =
  p_query :: string
  p_tokens :: "string list option"
  p_source :: source
  caller_source :: source

text \<open>Lines 58 to 64: stop words and exclusions.\<close>

definition strip_query :: "options \<Rightarrow> string \<Rightarrow> string" where
  "strip_query opts query =
     (let query1 = (if ignoreStopWords opts then removeStopWords query else query);
          query2 = (case exclusions opts of None \<Rightarrow> query1 | Some replace \<Rightarrow> replace query1)
      in query2)"

text \<open>
  \<^verbatim>\<open>source[key] = source[key].toLowerCase()\<close> on one property. The code is not in
  strict mode: the assignment to a property that is not writable does nothing.
\<close>

definition assign_lower :: "property \<Rightarrow> property" where
  "assign_lower prop =
     (case prop of (key, value, writable) \<Rightarrow>
        (key, if writable then toLowerCase value else value, writable))"

text \<open>Lines 66 to 79: the three branches on case sensitivity and the shape of the
  source. When no branch applies nothing is assigned.\<close>

definition fold_case :: "options \<Rightarrow> string \<Rightarrow> source \<Rightarrow> prepared" where
  "fold_case opts query source =
     (if caseSensitive opts then
        (let query1 = trim query in
         \<lparr> p_query = query1, p_tokens = Some (tokenize_default query1),
           p_source = source, caller_source = source \<rparr>)
      else if getDataType source = Some ''array'' then
        (let query1 = toLowerCase (trim query) in
         \<lparr> p_query = query1, p_tokens = Some (tokenize_default query1),
           p_source = Array (map toLowerCase (elements source)), caller_source = source \<rparr>)
      else if getDataType source = Some ''object'' then
        (let query1 = toLowerCase (trim query);
             lowered = Object (map assign_lower (properties source)) in
         \<lparr> p_query = query1, p_tokens = Some (tokenize_default query1),
           p_source = lowered, caller_source = lowered \<rparr>)
      else
        \<lparr> p_query = query, p_tokens = None,
          p_source = source, caller_source = source \<rparr>)"

text \<open>The body of the stemming loop at index \<open>i\<close>, on \<^verbatim>\<open>query\<close> and \<^verbatim>\<open>tokens\<close>.\<close>

definition stem_step :: "nat \<Rightarrow> string \<times> string list \<Rightarrow> string \<times> string list" where
  "stem_step i st =
     (case st of (query, tokens) \<Rightarrow>
        (let token = tokens ! i;
             lastChar = (if token = [] then [] else [last token]);
             tokens1 = (if lastChar = ''s'' then tokens[i := butlast token] else tokens)
         in if i + 1 < length tokens1 then (query @ (tokens1 ! i @ '' ''), tokens1)
            else (query @ tokens1 ! i, tokens1)))"

text \<open>Lines 81 to 93. Reading \<^verbatim>\<open>tokens.length\<close> while \<^verbatim>\<open>tokens\<close> is
  \<^verbatim>\<open>undefined\<close> throws a \<^verbatim>\<open>TypeError\<close>.\<close>

definition stem :: "options \<Rightarrow> prepared \<Rightarrow> error + prepared" where
  "stem opts p =
     (if stemming opts then
        (case p_tokens p of
           None \<Rightarrow> Inl TypeError
         | Some tokens \<Rightarrow>
             (case fold stem_step [0..<length tokens] ([], tokens) of
                (query, tokens1) \<Rightarrow> Inr (p\<lparr> p_query := query, p_tokens := Some tokens1 \<rparr>)))
      else Inr p)"

text \<open>Lines 56 to 93: the query as prepared for the matcher.\<close>

definition prepare :: "options \<Rightarrow> string \<Rightarrow> source \<Rightarrow> error + prepared" where
  "prepare opts query source = stem opts (fold_case opts (strip_query opts query) source)"

text \<open>Tier 2: is every token found in the candidate?\<close>

definition allFound :: "string list \<Rightarrow> string \<Rightarrow> bool" where
  "allFound tokens value = list_all (\<lambda>token. indexOf value token \<noteq> - 1) tokens"

text \<open>Lines 99 to 131, the three passes over an array source.\<close>

definition match_array :: "string \<Rightarrow> string list \<Rightarrow> nat \<Rightarrow> string list \<Rightarrow> string list" where
  "match_array query tokens flex source =
     (let results1 = filter (\<lambda>value. indexOf value query \<noteq> - 1) source;
          results2 = results1 @ filter (allFound tokens) source;
          results3 = (if flex > 0 then results2 @ getSimilarWords query source flex
                      else results2)
      in results3)"

text \<open>Lines 134 to 160, the body of the loop over the keys of an object source: what
  one value pushes.\<close>

definition match_value :: "string \<Rightarrow> string list \<Rightarrow> nat \<Rightarrow> string \<Rightarrow> string list" where
  "match_value query tokens flex value =
     (if indexOf value query \<noteq> - 1 then [value] else []) @
     (if allFound tokens value then [value] else []) @
     (if flex > 0 \<and>
         js_le (levenshtein (toLowerCase query) (toLowerCase value)) (Some flex)
      then [value] else [])"

definition match_object :: "string \<Rightarrow> string list \<Rightarrow> nat \<Rightarrow> property list \<Rightarrow> string list" where
  "match_object query tokens flex kvs =
     concat (map (\<lambda>(key, value, writable). match_value query tokens flex value) kvs)"

text \<open>
  Lines 99 to 161: the raw result list. The tokens are read only for an array or an
  object source, and \<open>fold_case\<close> leaves them undefined only for another source; a
  read of undefined tokens would throw.
\<close>

definition matcher :: "options \<Rightarrow> prepared \<Rightarrow> error + string list" where
  "matcher opts p =
     (if getDataType (p_source p) = Some ''array'' then
        (case p_tokens p of
           None \<Rightarrow> Inl TypeError
         | Some tokens \<Rightarrow>
             Inr (match_array (p_query p) tokens (flexibility opts) (elements (p_source p))))
      else if getDataType (p_source p) = Some ''object'' then
        (case p_tokens p of
           None \<Rightarrow> Inl TypeError
         | Some tokens \<Rightarrow>
             Inr (match_object (p_query p) tokens (flexibility opts) (properties (p_source p))))
      else Inr [])"

text \<open>Lines 163 to 168: \<open>None\<close> is \<^verbatim>\<open>null\<close>.\<close>

definition rank :: "string list \<Rightarrow> string \<Rightarrow> int \<Rightarrow> string list option" where
  "rank results query limit =
     (if loose_eq_string results [] then None
      else Some (slice0 (sortResults (createUniqueArray results) query) limit))"

text \<open>
  \<^verbatim>\<open>Haystack.prototype.search(query, source, limit)\<close>. The result is the caller's
  source as the call leaves it, and either the exception thrown or the value returned.
  A caller that leaves \<^verbatim>\<open>limit\<close> out passes \<open>default_limit\<close>.
\<close>

definition default_limit :: int where
  "default_limit = 1"

definition search :: "options \<Rightarrow> string \<Rightarrow> source \<Rightarrow> int \<Rightarrow> source \<times> (error + string list option)" where
  "search opts query source limit =
     (if query \<noteq> [] then
        (case prepare opts query source of
           Inl e \<Rightarrow> (caller_source (fold_case opts (strip_query opts query) source), Inl e)
         | Inr p \<Rightarrow>
             (case matcher opts p of
                Inl e \<Rightarrow> (caller_source p, Inl e)
              | Inr results \<Rightarrow> (caller_source p, Inr (rank results (p_query p) limit))))
      else (source, Inr None))"


section \<open>The edit distance calculator\<close>

subsection \<open>What the cost table holds\<close>

text \<open>
  The recurrence the loops of \<^verbatim>\<open>levenshtein\<close> implement: row 0 and column 0 hold their
  index, and a cell copies its upper-left neighbour when the two characters agree, and
  is one more than the least of its three neighbours otherwise.
\<close>

fun cost_cell :: "string \<Rightarrow> string \<Rightarrow> nat \<Rightarrow> nat \<Rightarrow> nat" where
  "cost_cell str1 str2 0 j = j"
| "cost_cell str1 str2 (Suc i) 0 = Suc i"
| "cost_cell str1 str2 (Suc i) (Suc j) =
     (if charAt str1 i = charAt str2 j then cost_cell str1 str2 i j
      else 1 + min (cost_cell str1 str2 i j)
                   (min (cost_cell str1 str2 (Suc i) j) (cost_cell str1 str2 i (Suc j))))"

lemma minimum_Some: "minimum (Some a) (Some b) (Some c) = Some (min a (min b c))"
  by (auto simp: minimum_def Let_def min_def)

lemma init_column_fold:
  "fold (\<lambda>i c. set_cost c i 0 (Some i)) [0..<k] cost i j =
     (if i < k \<and> j = 0 then Some i else cost i j)"
  by (induction k) (auto simp: set_cost_def)

lemma init_column_apply:
  "init_column n cost i j = (if i \<le> n \<and> j = 0 then Some i else cost i j)"
  unfolding init_column_def init_column_fold by auto

lemma init_row_fold:
  "fold (\<lambda>j c. set_cost c 0 j (Some j)) [0..<k] cost i j =
     (if i = 0 \<and> j < k then Some j else cost i j)"
  by (induction k) (auto simp: set_cost_def)

lemma init_row_apply:
  "init_row m cost i j = (if i = 0 \<and> j \<le> m then Some j else cost i j)"
  unfolding init_row_def init_row_fold by auto

lemma fill_cell_apply:
  "fill_cell str2 x i j cost i' j' =
     (if i' = i \<and> j' = j
      then (if x = charAt str2 (j - 1) then cost (i - 1) (j - 1)
            else js_add1 (minimum (cost (i - 1) (j - 1)) (cost i (j - 1)) (cost (i - 1) j)))
      else cost i' j')"
  by (simp add: fill_cell_def set_cost_def Let_def)

lemma fill_row_fold:
  assumes prev: "\<And>j. j \<le> m \<Longrightarrow> cost i j = Some (cost_cell str1 str2 i j)"
      and first: "cost (Suc i) 0 = Some (Suc i)"
      and k: "k \<le> m"
  shows "(\<forall>j\<le>k. fold (fill_cell str2 (charAt str1 i) (Suc i)) [1..<Suc k] cost (Suc i) j
                   = Some (cost_cell str1 str2 (Suc i) j)) \<and>
         (\<forall>i' j. i' \<noteq> Suc i \<longrightarrow>
            fold (fill_cell str2 (charAt str1 i) (Suc i)) [1..<Suc k] cost i' j = cost i' j)"
  using k
proof (induction k)
  case 0
  then show ?case using first by simp
next
  case (Suc k)
  define c where "c = fold (fill_cell str2 (charAt str1 i) (Suc i)) [1..<Suc k] cost"
  have IH1: "\<And>j. j \<le> k \<Longrightarrow> c (Suc i) j = Some (cost_cell str1 str2 (Suc i) j)"
   and IH2: "\<And>i' j. i' \<noteq> Suc i \<Longrightarrow> c i' j = cost i' j"
    using Suc unfolding c_def by auto
  have "[1..<Suc (Suc k)] = [1..<Suc k] @ [Suc k]" by simp
  then have step: "fold (fill_cell str2 (charAt str1 i) (Suc i)) [1..<Suc (Suc k)] cost
              = fill_cell str2 (charAt str1 i) (Suc i) (Suc k) c"
    unfolding c_def by (simp del: upt_Suc)
  have a: "c i k = Some (cost_cell str1 str2 i k)" using IH2[of i k] prev[of k] Suc.prems by simp
  have b: "c (Suc i) k = Some (cost_cell str1 str2 (Suc i) k)" using IH1 by simp
  have d: "c i (Suc k) = Some (cost_cell str1 str2 i (Suc k))"
    using IH2[of i "Suc k"] prev[of "Suc k"] Suc.prems by simp
  have new: "fill_cell str2 (charAt str1 i) (Suc i) (Suc k) c (Suc i) (Suc k)
               = Some (cost_cell str1 str2 (Suc i) (Suc k))"
    by (simp add: fill_cell_apply a b d minimum_Some)
  show ?case
    unfolding step
  proof (intro conjI allI impI)
    fix j assume "j \<le> Suc k"
    show "fill_cell str2 (charAt str1 i) (Suc i) (Suc k) c (Suc i) j = Some (cost_cell str1 str2 (Suc i) j)"
    proof (cases "j = Suc k")
      case True
      then show ?thesis using new by simp
    next
      case False
      then have "j \<le> k" using \<open>j \<le> Suc k\<close> by simp
      then show ?thesis using False IH1 by (simp add: fill_cell_apply)
    qed
  next
    fix i' j assume "i' \<noteq> Suc i"
    then show "fill_cell str2 (charAt str1 i) (Suc i) (Suc k) c i' j = cost i' j"
      using IH2 by (simp add: fill_cell_apply)
  qed
qed

lemma fill_table_fold:
  assumes row0: "\<And>j. j \<le> m \<Longrightarrow> cost 0 j = Some j"
      and col0: "\<And>i. i \<le> n \<Longrightarrow> cost i 0 = Some i"
      and k: "k \<le> n"
  shows "(\<forall>i j. i \<le> k \<and> j \<le> m \<longrightarrow>
            fold (\<lambda>i c. fill_row str2 m (charAt str1 (i - 1)) i c) [1..<Suc k] cost i j
              = Some (cost_cell str1 str2 i j)) \<and>
         (\<forall>i j. k < i \<longrightarrow>
            fold (\<lambda>i c. fill_row str2 m (charAt str1 (i - 1)) i c) [1..<Suc k] cost i j
              = cost i j)"
  using k
proof (induction k)
  case 0
  then show ?case using row0 by simp
next
  case (Suc k)
  define c where "c = fold (\<lambda>i c. fill_row str2 m (charAt str1 (i - 1)) i c) [1..<Suc k] cost"
  have IH1: "\<And>i j. i \<le> k \<Longrightarrow> j \<le> m \<Longrightarrow> c i j = Some (cost_cell str1 str2 i j)"
   and IH2: "\<And>i j. k < i \<Longrightarrow> c i j = cost i j"
    using Suc unfolding c_def by auto
  have "[1..<Suc (Suc k)] = [1..<Suc k] @ [Suc k]" by simp
  then have "fold (\<lambda>i c. fill_row str2 m (charAt str1 (i - 1)) i c) [1..<Suc (Suc k)] cost
              = fill_row str2 m (charAt str1 k) (Suc k) c"
    unfolding c_def by (simp del: upt_Suc)
  then have step: "fold (\<lambda>i c. fill_row str2 m (charAt str1 (i - 1)) i c) [1..<Suc (Suc k)] cost
              = fold (fill_cell str2 (charAt str1 k) (Suc k)) [1..<Suc m] c"
    by (simp only: fill_row_def)
  have prev: "\<And>j. j \<le> m \<Longrightarrow> c k j = Some (cost_cell str1 str2 k j)" using IH1 by simp
  have first: "c (Suc k) 0 = Some (Suc k)" using IH2[of "Suc k" 0] col0[of "Suc k"] Suc.prems by simp
  note fr = fill_row_fold[of m c k str1 str2 m, OF prev first order_refl]
  show ?case
    unfolding step
  proof (intro conjI allI impI)
    fix i j assume ij: "i \<le> Suc k \<and> j \<le> m"
    show "fold (fill_cell str2 (charAt str1 k) (Suc k)) [1..<Suc m] c i j = Some (cost_cell str1 str2 i j)"
    proof (cases "i = Suc k")
      case True
      then show ?thesis using fr ij by blast
    next
      case False
      then have "i \<le> k" using ij by simp
      then show ?thesis using fr False IH1 ij by auto
    qed
  next
    fix i j assume "Suc k < i"
    then show "fold (fill_cell str2 (charAt str1 k) (Suc k)) [1..<Suc m] c i j = cost i j"
      using fr IH2[of i j] by auto
  qed
qed

lemma levenshtein_cost_cell:
  "levenshtein word1 word2 =
     (if word1 = [] then None
      else Some (cost_cell word1 word2 (length word1) (length word1)))"
proof (cases "word1 = []")
  case True
  then show ?thesis by (simp add: levenshtein_def)
next
  case False
  let ?n = "length word1"
  let ?c0 = "init_row ?n (init_column ?n new_cost)"
  have row0: "\<And>j. j \<le> ?n \<Longrightarrow> ?c0 0 j = Some j" by (simp add: init_row_apply)
  have col0: "\<And>i. i \<le> ?n \<Longrightarrow> ?c0 i 0 = Some i"
    by (simp add: init_row_apply init_column_apply)
  from fill_table_fold[of ?n ?c0 ?n ?n word2 word1, OF row0 col0 order_refl]
  have "fill_table word1 word2 ?n ?n ?c0 ?n ?n = Some (cost_cell word1 word2 ?n ?n)"
    unfolding fill_table_def by simp
  then show ?thesis using False by (simp add: levenshtein_def Let_def)
qed



text \<open>The reference for the contract: the minimum number of single-character
  insertions, deletions or substitutions that transform \<open>A\<close> into \<open>B\<close>, by the usual
  recursion on the two strings.\<close>

fun edit_distance :: "string \<Rightarrow> string \<Rightarrow> nat" where
  "edit_distance [] B = length B"
| "edit_distance A [] = length A"
| "edit_distance (a # A) (b # B) =
     (if a = b then edit_distance A B
      else 1 + min (edit_distance A B) (min (edit_distance (a # A) B) (edit_distance A (b # B))))"

lemma levenshtein_empty_first: "levenshtein [] word2 = None"
  by (simp add: levenshtein_def)

lemmas levenshtein_eval = levenshtein_def fill_table_def fill_row_def fill_cell_def
  init_row_def init_column_def set_cost_def new_cost_def minimum_def charAt_def upt_rec

lemma levenshtein_a_ab: "levenshtein ''a'' ''ab'' = Some 0"
  by (simp add: levenshtein_eval)

lemma levenshtein_ab_a: "levenshtein ''ab'' ''a'' = Some 1"
  by (simp add: levenshtein_eval)

subsection \<open>Claims on the edit distance\<close>

text \<open>
  C1. The claim: for non-empty \<open>A\<close> and \<open>B\<close>, \<^verbatim>\<open>levenshtein(A, B)\<close> is the minimum
  number of single-character edits that transform \<open>A\<close> into \<open>B\<close>. The code takes both
  table dimensions from \<open>A\<close>, so only the first \<open>length A\<close> characters of \<open>B\<close> are
  read: for \<open>A = a\<close> and \<open>B = ab\<close> it returns 0, where one insertion is needed.
\<close>

theorem levenshtein_not_minimum:
  "levenshtein ''a'' ''ab'' = Some 0 \<and> edit_distance ''a'' ''ab'' = 1"
  using levenshtein_a_ab by simp

text \<open>
  C2. The claim: \<^verbatim>\<open>levenshtein(A, B)\<close> equals \<^verbatim>\<open>levenshtein(B, A)\<close> for non-empty
  \<open>A\<close>, \<open>B\<close>. In the code the two differ for \<open>A = a\<close>, \<open>B = ab\<close>: 0 one way, 1 the
  other.
\<close>

theorem levenshtein_not_symmetric:
  "levenshtein ''a'' ''ab'' = Some 0 \<and> levenshtein ''ab'' ''a'' = Some 1 \<and>
   levenshtein ''a'' ''ab'' \<noteq> levenshtein ''ab'' ''a''"
  using levenshtein_a_ab levenshtein_ab_a by simp

text \<open>
  C7. The claim: \<^verbatim>\<open>levenshtein\<close> returns \<^verbatim>\<open>undefined\<close> whenever either input is the
  empty string. The second guard of the code tests \<open>m\<close>, which is the length of the
  first word again: with a non-empty first word and an empty second word the code
  returns a number, the length of the first word.
\<close>

theorem levenshtein_empty_second_word:
  "levenshtein ''a'' [] = Some 1"
  by (simp add: levenshtein_eval)


section \<open>Ranking\<close>

subsection \<open>A pass without a swap leaves an ordered array\<close>

lemma sort_fold_swapped:
  "fold (sort_step query) is (rs, True) = (rs', sw') \<Longrightarrow> sw'"
  by (induction "is" arbitrary: rs) (auto simp: sort_step_def Let_def split: if_splits)

lemma sort_fold_unchanged:
  "fold (sort_step query) is (rs, sw) = (rs', False) \<Longrightarrow>
     rs' = rs \<and> list_all (\<lambda>i. \<not> out_of_order rs query i) is"
proof (induction "is" arbitrary: rs sw)
  case Nil
  then show ?case by simp
next
  case (Cons i "is")
  show ?case
  proof (cases "out_of_order rs query i")
    case True
    then obtain rs1 where "sort_step query i (rs, sw) = (rs1, True)"
      by (simp add: sort_step_def Let_def)
    with Cons.prems have "fold (sort_step query) is (rs1, True) = (rs', False)" by simp
    from sort_fold_swapped[OF this] show ?thesis by simp
  next
    case False
    then have "sort_step query i (rs, sw) = (rs, sw)" by (simp add: sort_step_def)
    with Cons.prems have "fold (sort_step query) is (rs, sw) = (rs', False)" by simp
    from Cons.IH[OF this] False show ?thesis by simp
  qed
qed

lemma sort_pass_unchanged:
  assumes "sort_pass rs query = (rs', False)"
  shows "rs' = rs" and "i < length rs \<Longrightarrow> \<not> out_of_order rs query i"
proof -
  from sort_fold_unchanged[OF assms[unfolded sort_pass_def]]
  have a: "rs' = rs" and b: "list_all (\<lambda>i. \<not> out_of_order rs query i) [0..<length rs]" by auto
  show "rs' = rs" by (rule a)
  show "i < length rs \<Longrightarrow> \<not> out_of_order rs query i" using b by (simp add: list_all_iff)
qed

lemma sortResults_mset: "mset (sortResults rs query) = mset rs"
proof (induction rs query rule: sortResults.induct)
  case (1 results query)
  obtain rs' sw where sp: "sort_pass results query = (rs', sw)" by force
  have m: "mset rs' = mset results"
    using sort_fold_measure[OF sp[unfolded sort_pass_def]] by simp
  show ?case
  proof (cases sw)
    case True
    have "mset (sortResults rs' query) = mset rs'" using "1.IH"[OF sp[symmetric] True] .
    moreover have "sortResults results query = sortResults rs' query"
      by (subst sortResults.simps) (simp add: sp True)
    ultimately show ?thesis using m by simp
  next
    case False
    have "sortResults results query = rs'"
      by (subst sortResults.simps) (simp add: sp False)
    then show ?thesis using m by simp
  qed
qed

lemma sortResults_set: "set (sortResults rs query) = set rs"
  using sortResults_mset[of rs query] by (metis set_mset_mset)

lemma sortResults_in_order:
  "i < length (sortResults rs query) \<Longrightarrow> \<not> out_of_order (sortResults rs query) query i"
proof (induction rs query rule: sortResults.induct)
  case (1 results query)
  obtain rs' sw where sp: "sort_pass results query = (rs', sw)" by force
  show ?case
  proof (cases sw)
    case True
    have eq: "sortResults results query = sortResults rs' query"
      by (subst sortResults.simps) (simp add: sp True)
    show ?thesis using "1.IH"[OF sp[symmetric] True] "1.prems" unfolding eq by simp
  next
    case False
    then have sp': "sort_pass results query = (rs', False)" using sp by simp
    have eq: "sortResults results query = results"
      using sort_pass_unchanged(1)[OF sp']
      by (subst sortResults.simps) (simp add: sp')
    show ?thesis using sort_pass_unchanged(2)[OF sp'] "1.prems" unfolding eq by simp
  qed
qed

lemma levenshtein_distance_key:
  "query \<noteq> [] \<Longrightarrow> levenshtein query r = Some (distance_key query r)"
  by (simp add: distance_key_def levenshtein_cost_cell)

lemma sortResults_prefix_sorted:
  assumes q: "query \<noteq> []" and ne: "[] \<notin> set (take k (sortResults rs query))"
  shows "sorted (map (distance_key query) (take k (sortResults rs query)))"
proof -
  let ?s = "sortResults rs query"
  let ?t = "take k ?s"
  have "distance_key query (?t ! i) \<le> distance_key query (?t ! Suc i)"
    if i: "Suc i < length ?t" for i
  proof -
    have len: "Suc i < length ?s" "Suc i < k" using i by simp_all
    have "\<not> out_of_order ?s query i" using sortResults_in_order[of i rs query] len by simp
    moreover have "?t ! i \<in> set ?t" "?t ! Suc i \<in> set ?t" using i by (simp_all add: nth_mem del: nth_take)
    then have "?t ! i \<noteq> []" "?t ! Suc i \<noteq> []" using ne by metis+
    moreover have "?t ! i = ?s ! i" "?t ! Suc i = ?s ! Suc i" using len by simp_all
    ultimately show ?thesis
      using len q by (simp add: out_of_order_def at_def levenshtein_distance_key)
  qed
  then show ?thesis by (simp add: sorted_iff_nth_Suc del: nth_take)
qed

lemma createUniqueArray_subset: "set (createUniqueArray arr) \<subseteq> set arr"
  by (auto simp: createUniqueArray_def dest: set_zip_leftD)

lemma slice0_take: "\<exists>k. slice0 arr limit = take k arr"
  by (auto simp: slice0_def Let_def)

lemma filter_fn_subset: "set (filter_fn fn source) \<subseteq> set source"
  by (auto simp: filter_fn_def)

lemma getSimilarWords_subset: "set (getSimilarWords input source threshold) \<subseteq> set source"
  using filter_fn_subset by (auto simp: getSimilarWords_def Let_def sortResults_set)

lemma match_array_subset: "set (match_array query tokens flex source) \<subseteq> set source"
  using getSimilarWords_subset by (auto simp: match_array_def Let_def)

lemma match_object_subset:
  "set (match_object query tokens flex kvs) \<subseteq> set (candidates (Object kvs))"
  by (force simp: match_object_def match_value_def split: if_splits)

lemma matcher_subset:
  "matcher opts p = Inr results \<Longrightarrow> set results \<subseteq> set (candidates (p_source p))"
proof (cases "p_source p")
  case (Array xs)
  then show "matcher opts p = Inr results \<Longrightarrow> ?thesis"
    by (auto simp: matcher_def split: option.splits dest: subsetD[OF match_array_subset])
next
  case (Object kvs)
  then show "matcher opts p = Inr results \<Longrightarrow> ?thesis"
    using match_object_subset[of "p_query p" _ "flexibility opts" kvs]
    by (auto simp: matcher_def split: option.splits if_splits)
next
  case Unsupported
  then show "matcher opts p = Inr results \<Longrightarrow> ?thesis"
    by (simp add: matcher_def)
qed

lemma rank_subset:
  "rank results query limit = Some rs \<Longrightarrow> set rs \<subseteq> set results"
proof -
  assume a: "rank results query limit = Some rs"
  obtain k where k: "slice0 (sortResults (createUniqueArray results) query) limit
                     = take k (sortResults (createUniqueArray results) query)"
    using slice0_take by blast
  from a have "rs = take k (sortResults (createUniqueArray results) query)"
    by (simp add: rank_def k split: if_splits)
  then have "set rs \<subseteq> set (sortResults (createUniqueArray results) query)"
    by (simp add: set_take_subset)
  then show ?thesis using createUniqueArray_subset[of results] by (auto simp: sortResults_set)
qed

lemma rank_sorted:
  assumes "rank results query limit = Some rs" "query \<noteq> []" "[] \<notin> set rs"
  shows "sorted (map (distance_key query) rs)"
proof -
  obtain k where k: "slice0 (sortResults (createUniqueArray results) query) limit
                     = take k (sortResults (createUniqueArray results) query)"
    using slice0_take by blast
  from assms(1) have rs: "rs = take k (sortResults (createUniqueArray results) query)"
    by (simp add: rank_def k split: if_splits)
  show ?thesis
    using sortResults_prefix_sorted[OF assms(2), of k "createUniqueArray results"] assms(3)
    unfolding rs by simp
qed

lemma search_Some_D:
  assumes "snd (search opts query source limit) = Inr (Some rs)"
  obtains p results where "query \<noteq> []" "prepare opts query source = Inr p"
    "matcher opts p = Inr results" "rank results (p_query p) limit = Some rs"
  using assms by (auto simp: search_def split: if_splits sum.splits)

lemma stem_source:
  "stem opts p0 = Inr p \<Longrightarrow> p_source p = p_source p0 \<and> caller_source p = caller_source p0"
  by (auto simp: stem_def split: if_splits option.splits prod.splits)

lemma assign_lower_candidates:
  "set (candidates (Object (map assign_lower kvs))) =
     toLowerCase ` set (folded_candidates (Object kvs)) \<union> set (kept_candidates (Object kvs))"
  by (force simp: assign_lower_def image_iff split: if_splits)

lemma fold_case_matched:
  assumes "\<not> caseSensitive opts"
      and "matcher opts p = Inr results"
      and "p_source p = p_source (fold_case opts query source)"
  shows "set results \<subseteq> toLowerCase ` set (folded_candidates source) \<union> set (kept_candidates source)"
proof (cases "getDataType source")
  case None
  then have "p_source p = source" using assms(1,3) by (simp add: fold_case_def)
  then have "results = []" using assms(2) None by (simp add: matcher_def)
  then show ?thesis by simp
next
  case (Some t)
  show ?thesis
  proof (cases source)
    case (Array xs)
    then have "p_source p = Array (map toLowerCase xs)"
      using assms(1,3) by (simp add: fold_case_def Let_def)
    then show ?thesis using matcher_subset[OF assms(2)] Array by auto
  next
    case (Object kvs)
    then have "p_source p = Object (map assign_lower kvs)"
      using assms(1,3) Some by (simp add: fold_case_def Let_def split: if_splits)
    then have "set results \<subseteq> set (candidates (Object (map assign_lower kvs)))"
      using matcher_subset[OF assms(2)] by simp
    then show ?thesis unfolding assign_lower_candidates Object .
  next
    case Unsupported
    then show ?thesis using Some by simp
  qed
qed

lemma prepare_matched:
  assumes "\<not> caseSensitive opts"
      and "prepare opts query source = Inr p"
      and "matcher opts p = Inr results"
  shows "set results \<subseteq> toLowerCase ` set (folded_candidates source) \<union> set (kept_candidates source)"
proof -
  have "p_source p = p_source (fold_case opts (strip_query opts query) source)"
    using assms(2) stem_source unfolding prepare_def by blast
  from fold_case_matched[OF assms(1,3) this] show ?thesis .
qed

section \<open>The search facade\<close>

subsection \<open>Concrete calls\<close>

lemmas string_eval = toLowerCase_def lower_char_def upper_case_def lower_case_def trim_def
  is_whitespace_def
  tokenize_default_def tokenize_def
lemmas prepare_eval = prepare_def stem_def fold_case_def assign_lower_def strip_query_def
  defaults_def Let_def
lemmas sort_eval = sort_pass_def sort_step_def out_of_order_def at_def upt_rec Let_def
lemmas match_eval = match_array_def match_object_def match_value_def allFound_def
  getSimilarWords_def filter_fn_def within_threshold_def Let_def
lemmas rank_eval = rank_def loose_eq_string_def createUniqueArray_def slice0_def upt_rec Let_def

lemma flexibility_defaults: "flexibility defaults = 2"
  by (simp add: defaults_def)

text \<open>The default engine, the query \<open>a\<close>, the array \<open>[A]\<close>, limit 1.\<close>

lemma levenshtein_a_a: "levenshtein ''a'' ''a'' = Some 0"
  by (simp add: levenshtein_eval)

lemma sortResults_a: "sortResults [''a''] ''a'' = [''a'']"
  by (subst sortResults.simps) (simp add: sort_eval)

lemma prepare_a_A:
  "prepare defaults ''a'' (Array [''A'']) =
     Inr \<lparr> p_query = ''a'', p_tokens = Some [''a''],
           p_source = Array [''a''], caller_source = Array [''A''] \<rparr>"
  by (simp add: prepare_eval string_eval)

lemma search_a_A:
  "search defaults ''a'' (Array [''A'']) 1 = (Array [''A''], Inr (Some [''a'']))"
  by (simp add: search_def prepare_a_A matcher_def flexibility_defaults match_eval rank_eval
        levenshtein_a_a sortResults_a)

text \<open>The default engine, the query \<open>a\<close>, the array \<open>[a, ab]\<close>, limit -1.\<close>

lemma sortResults_a_ab: "sortResults [''a'', ''ab''] ''a'' = [''a'', ''ab'']"
  by (subst sortResults.simps) (simp add: sort_eval levenshtein_a_a levenshtein_a_ab)

lemma prepare_a_a_ab:
  "prepare defaults ''a'' (Array [''a'', ''ab'']) =
     Inr \<lparr> p_query = ''a'', p_tokens = Some [''a''],
           p_source = Array [''a'', ''ab''], caller_source = Array [''a'', ''ab''] \<rparr>"
  by (simp add: prepare_eval string_eval)

lemma search_a_a_ab:
  "search defaults ''a'' (Array [''a'', ''ab'']) (- 1) = (Array [''a'', ''ab''], Inr (Some [''a'']))"
  by (simp add: search_def prepare_a_a_ab matcher_def flexibility_defaults match_eval rank_eval
        levenshtein_a_a levenshtein_a_ab sortResults_a_ab)

text \<open>The default engine, the query \<open>ab\<close>, an object holding the empty string and
  \<open>ab\<close>, limit 2.\<close>

lemma levenshtein_ab_empty: "levenshtein ''ab'' [] = Some 2"
  by (simp add: levenshtein_eval)

lemma levenshtein_ab_ab: "levenshtein ''ab'' ''ab'' = Some 0"
  by (simp add: levenshtein_eval)

lemma sortResults_empty_ab: "sortResults [[], ''ab''] ''ab'' = [[], ''ab'']"
  by (subst sortResults.simps) (simp add: sort_eval)

lemma prepare_ab_object2:
  "prepare defaults ''ab'' (Object [(''a'', [], True), (''b'', ''ab'', True)]) =
     Inr \<lparr> p_query = ''ab'', p_tokens = Some [''ab''],
           p_source = Object [(''a'', [], True), (''b'', ''ab'', True)],
           caller_source = Object [(''a'', [], True), (''b'', ''ab'', True)] \<rparr>"
  by (simp add: prepare_eval string_eval)

lemma search_ab_object2:
  "search defaults ''ab'' (Object [(''a'', [], True), (''b'', ''ab'', True)]) 2 =
     (Object [(''a'', [], True), (''b'', ''ab'', True)], Inr (Some [[], ''ab'']))"
  by (simp add: search_def prepare_ab_object2 matcher_def flexibility_defaults match_eval rank_eval
        toLowerCase_def lower_char_def upper_case_def lower_case_def levenshtein_ab_empty levenshtein_ab_ab sortResults_empty_ab)

text \<open>The default engine, the query of one space, the array \<open>[b, a]\<close>, limit 2.\<close>

lemma sortResults_b_a: "sortResults [''b'', ''a''] [] = [''b'', ''a'']"
  by (subst sortResults.simps) (simp add: sort_eval levenshtein_empty_first)

lemma prepare_space:
  "prepare defaults '' '' (Array [''b'', ''a'']) =
     Inr \<lparr> p_query = [], p_tokens = Some [[]],
           p_source = Array [''b'', ''a''], caller_source = Array [''b'', ''a''] \<rparr>"
  by (simp add: prepare_eval string_eval)

lemma sortResults_nil: "sortResults [] query = []"
  by (subst sortResults.simps) (simp add: sort_pass_def)

lemma search_space:
  "search defaults '' '' (Array [''b'', ''a'']) 2 = (Array [''b'', ''a''], Inr (Some [''b'', ''a'']))"
  by (simp add: search_def prepare_space matcher_def flexibility_defaults match_eval rank_eval
        levenshtein_empty_first sortResults_b_a sortResults_nil)

text \<open>The default engine, the query \<open>a\<close>, the array \<open>[ba, a]\<close>, limit 2.\<close>

lemma levenshtein_a_ba: "levenshtein ''a'' ''ba'' = Some 1"
  by (simp add: levenshtein_eval)

lemma sortResults_a_ba: "sortResults [''a'', ''ba''] ''a'' = [''a'', ''ba'']"
  by (subst sortResults.simps) (simp add: sort_eval levenshtein_a_a levenshtein_a_ba)

lemma sortResults_ba_a: "sortResults [''ba'', ''a''] ''a'' = [''a'', ''ba'']"
  by (subst sortResults.simps) (simp add: sort_eval levenshtein_a_a levenshtein_a_ba sortResults_a_ba)

lemma prepare_a_ba_a:
  "prepare defaults ''a'' (Array [''ba'', ''a'']) =
     Inr \<lparr> p_query = ''a'', p_tokens = Some [''a''],
           p_source = Array [''ba'', ''a''], caller_source = Array [''ba'', ''a''] \<rparr>"
  by (simp add: prepare_eval string_eval)

lemma search_a_ba_a:
  "search defaults ''a'' (Array [''ba'', ''a'']) 2 = (Array [''ba'', ''a''], Inr (Some [''a'', ''ba'']))"
  by (simp add: search_def prepare_a_ba_a matcher_def flexibility_defaults match_eval rank_eval
        levenshtein_a_a levenshtein_a_ba sortResults_ba_a)


text \<open>The default engine, the query \<open>a\<close>, the array \<open>[a, ab]\<close>, limit 1: two matches,
  one returned.\<close>

lemma search_a_a_ab_1:
  "search defaults ''a'' (Array [''a'', ''ab'']) 1 = (Array [''a'', ''ab''], Inr (Some [''a'']))"
  by (simp add: search_def prepare_a_a_ab matcher_def flexibility_defaults match_eval rank_eval
        levenshtein_a_a levenshtein_a_ab sortResults_a_ab)

text \<open>The default engine, the query \<open>a\<close>, a frozen object whose one value is \<open>A\<close>.\<close>

lemma sortResults_A: "sortResults [''A''] ''a'' = [''A'']"
  by (subst sortResults.simps) (simp add: sort_eval)

lemma prepare_a_frozen:
  "prepare defaults ''a'' (Object [(''k'', ''A'', False)]) =
     Inr \<lparr> p_query = ''a'', p_tokens = Some [''a''],
           p_source = Object [(''k'', ''A'', False)],
           caller_source = Object [(''k'', ''A'', False)] \<rparr>"
  by (simp add: prepare_eval string_eval)

lemma search_a_frozen:
  "search defaults ''a'' (Object [(''k'', ''A'', False)]) 1 =
     (Object [(''k'', ''A'', False)], Inr (Some [''A'']))"
  by (simp add: search_def prepare_a_frozen matcher_def flexibility_defaults match_eval rank_eval
        string_eval levenshtein_a_a sortResults_A)

text \<open>The default engine, the query \<open>ab\<close>, an object whose one value is the empty
  string.\<close>

lemma prepare_ab_object:
  "prepare defaults ''ab'' (Object [(''k'', [], True)]) =
     Inr \<lparr> p_query = ''ab'', p_tokens = Some [''ab''],
           p_source = Object [(''k'', [], True)], caller_source = Object [(''k'', [], True)] \<rparr>"
  by (simp add: prepare_eval string_eval)

lemma matcher_ab_object:
  "matcher defaults \<lparr> p_query = ''ab'', p_tokens = Some [''ab''],
           p_source = Object [(''k'', [], True)], caller_source = Object [(''k'', [], True)] \<rparr> = Inr [[]]"
  by (simp add: matcher_def match_object_def match_value_def allFound_def flexibility_defaults
        toLowerCase_def lower_char_def upper_case_def lower_case_def levenshtein_ab_empty)

text \<open>The default engine, the query \<open>a\<close>, an object whose one value is \<open>A\<close>.\<close>

lemma prepare_a_object:
  "prepare defaults ''a'' (Object [(''k'', ''A'', True)]) =
     Inr \<lparr> p_query = ''a'', p_tokens = Some [''a''],
           p_source = Object [(''k'', ''a'', True)], caller_source = Object [(''k'', ''a'', True)] \<rparr>"
  by (simp add: prepare_eval string_eval)

lemma getDataType_values:
  "getDataType source = Some t \<Longrightarrow> t = ''array'' \<or> t = ''object''"
  by (cases source) (auto split: if_splits)

lemma fold_case_tokens:
  "getDataType source \<noteq> None \<Longrightarrow> p_tokens (fold_case opts query source) \<noteq> None"
  using getDataType_values[of source] by (auto simp: fold_case_def Let_def)

lemma fold_case_shape:
  "getDataType (p_source (fold_case opts query source)) = getDataType source"
proof (cases source)
  case (Object kvs)
  have "map fst (map assign_lower kvs) = map fst kvs"
    by (induction kvs) (auto simp: assign_lower_def)
  then show ?thesis using Object by (simp add: fold_case_def Let_def)
qed (simp_all add: fold_case_def Let_def)

lemma stem_tokens:
  "stem opts p0 = Inr p \<Longrightarrow> p_tokens p0 \<noteq> None \<Longrightarrow> p_tokens p \<noteq> None"
  by (auto simp: stem_def split: if_splits option.splits prod.splits)

lemma matcher_total:
  assumes "prepare opts query source = Inr p"
  shows "\<exists>results. matcher opts p = Inr results"
proof (cases "getDataType source")
  case None
  let ?p0 = "fold_case opts (strip_query opts query) source"
  have "p_source p = p_source ?p0" using assms stem_source unfolding prepare_def by blast
  then have "getDataType (p_source p) = None" using None by (simp add: fold_case_shape)
  then show ?thesis by (simp add: matcher_def)
next
  case (Some t)
  let ?p0 = "fold_case opts (strip_query opts query) source"
  have "p_tokens ?p0 \<noteq> None" using Some by (simp add: fold_case_tokens)
  then have "p_tokens p \<noteq> None" using assms stem_tokens unfolding prepare_def by blast
  then show ?thesis by (auto simp: matcher_def)
qed

lemma rank_single_empty: "rank [[]] query limit = None"
  by (simp add: rank_def loose_eq_string_def)

lemma length_slice0: "0 \<le> limit \<Longrightarrow> int (length (slice0 arr limit)) \<le> limit"
  by (simp add: slice0_def Let_def)

subsection \<open>Claims on search\<close>

text \<open>
  C3. The claim: in the list \<^verbatim>\<open>search\<close> returns, an entry that comes before another
  is no farther from the final query, by \<^verbatim>\<open>levenshtein\<close>. It fails when the final
  query is empty, since every distance is then \<^verbatim>\<open>undefined\<close> and no comparison
  holds, and when an entry is the empty string, which \<^verbatim>\<open>sortResults\<close> never
  moves. As amended: when the final query is not empty and no entry of the returned
  list is the empty string, the returned list is in ascending order of distance.
\<close>

theorem search_ranked:
  assumes "snd (search opts query source limit) = Inr (Some rs)"
      and "prepare opts query source = Inr p"
      and "p_query p \<noteq> []"
      and "[] \<notin> set rs"
      and "i < j" and "j < length rs"
  shows "js_le (levenshtein (p_query p) (rs ! i)) (levenshtein (p_query p) (rs ! j))"
proof -
  from assms(1) obtain p' results where
    p': "prepare opts query source = Inr p'" and
    r: "rank results (p_query p') limit = Some rs"
    by (rule search_Some_D)
  from p' assms(2) have [simp]: "p' = p" by simp
  from rank_sorted[OF r[simplified] assms(3,4)]
  have "distance_key (p_query p) (rs ! i) \<le> distance_key (p_query p) (rs ! j)"
    using assms(5,6) by (simp add: sorted_iff_nth_mono_less)
  then show ?thesis by (simp add: levenshtein_distance_key[OF assms(3)])
qed

theorem search_ranked_witness:
  "snd (search defaults ''a'' (Array [''ba'', ''a'']) 2) = Inr (Some [''a'', ''ba'']) \<and>
   prepare defaults ''a'' (Array [''ba'', ''a'']) =
     Inr \<lparr> p_query = ''a'', p_tokens = Some [''a''],
           p_source = Array [''ba'', ''a''], caller_source = Array [''ba'', ''a''] \<rparr> \<and>
   ''a'' \<noteq> [] \<and> [] \<notin> set [''a'', ''ba''] \<and>
   js_le (levenshtein ''a'' ([''a'', ''ba''] ! 0)) (levenshtein ''a'' ([''a'', ''ba''] ! 1))"
proof -
  have s: "snd (search defaults ''a'' (Array [''ba'', ''a'']) 2) = Inr (Some [''a'', ''ba''])"
    by (simp add: search_a_ba_a)
  have c: "[] \<notin> set [''a'', ''ba'']" by simp
  have "js_le (levenshtein ''a'' ([''a'', ''ba''] ! 0)) (levenshtein ''a'' ([''a'', ''ba''] ! 1))"
    using search_ranked [OF s prepare_a_ba_a _ c, of 0 1] by simp
  then show ?thesis using s prepare_a_ba_a by simp
qed

theorem search_not_ranked:
  "snd (search defaults ''ab'' (Object [(''a'', [], True), (''b'', ''ab'', True)]) 2) = Inr (Some [[], ''ab'']) \<and>
   prepare defaults ''ab'' (Object [(''a'', [], True), (''b'', ''ab'', True)]) =
     Inr \<lparr> p_query = ''ab'', p_tokens = Some [''ab''],
           p_source = Object [(''a'', [], True), (''b'', ''ab'', True)],
           caller_source = Object [(''a'', [], True), (''b'', ''ab'', True)] \<rparr> \<and>
   \<not> js_le (levenshtein ''ab'' []) (levenshtein ''ab'' ''ab'') \<and>
   snd (search defaults '' '' (Array [''b'', ''a'']) 2) = Inr (Some [''b'', ''a'']) \<and>
   prepare defaults '' '' (Array [''b'', ''a'']) =
     Inr \<lparr> p_query = [], p_tokens = Some [[]],
           p_source = Array [''b'', ''a''], caller_source = Array [''b'', ''a''] \<rparr> \<and>
   \<not> js_le (levenshtein [] ''b'') (levenshtein [] ''a'')"
  by (simp add: search_ab_object2 prepare_ab_object2 levenshtein_ab_empty levenshtein_ab_ab
        search_space prepare_space levenshtein_empty_first)

text \<open>
  C4. The claim: with \<^verbatim>\<open>caseSensitive\<close> false, every entry of the returned list is an
  original, not case-folded, candidate of the caller's source. The matcher works on
  the source after case folding and returns its entries. As amended: with
  \<^verbatim>\<open>caseSensitive\<close> false, every entry of the returned list is the lower-case form of
  a candidate of the caller's source, or, for a mapping, the value as it is of a
  property that is not writable.
\<close>

theorem search_returns_lowered:
  assumes "\<not> caseSensitive opts"
      and "snd (search opts query source limit) = Inr (Some rs)"
      and "r \<in> set rs"
  shows "r \<in> toLowerCase ` set (folded_candidates source) \<or> r \<in> set (kept_candidates source)"
proof -
  from assms(2) obtain p results where
    p: "prepare opts query source = Inr p" and
    m: "matcher opts p = Inr results" and
    rk: "rank results (p_query p) limit = Some rs"
    by (rule search_Some_D)
  have "r \<in> set results" using rank_subset[OF rk] assms(3) by auto
  then show ?thesis using prepare_matched[OF assms(1) p m] by auto
qed

theorem search_returns_lowered_witness:
  "\<not> caseSensitive defaults \<and>
   snd (search defaults ''a'' (Array [''A'']) 1) = Inr (Some [''a'']) \<and>
   ''a'' \<in> set [''a''] \<and>
   ''a'' \<in> toLowerCase ` set (folded_candidates (Array [''A''])) \<and>
   snd (search defaults ''a'' (Object [(''k'', ''A'', False)]) 1) = Inr (Some [''A'']) \<and>
   ''A'' \<in> set [''A''] \<and>
   ''A'' \<in> set (kept_candidates (Object [(''k'', ''A'', False)]))"
proof -
  have c: "\<not> caseSensitive defaults" by (simp add: defaults_def)
  have s: "snd (search defaults ''a'' (Array [''A'']) 1) = Inr (Some [''a''])"
    by (simp add: search_a_A)
  have t: "snd (search defaults ''a'' (Object [(''k'', ''A'', False)]) 1) = Inr (Some [''A''])"
    by (simp add: search_a_frozen)
  have "''a'' \<in> toLowerCase ` set (folded_candidates (Array [''A'']))"
    using search_returns_lowered [OF c s, of "''a''"] by simp
  moreover have "''A'' \<in> set (kept_candidates (Object [(''k'', ''A'', False)]))"
    using search_returns_lowered [OF c t, of "''A''"] by simp
  ultimately show ?thesis using c s t by simp
qed

theorem search_returns_folded_value:
  "snd (search defaults ''a'' (Array [''A'']) 1) = Inr (Some [''a'']) \<and>
   ''a'' \<notin> set (candidates (Array [''A'']))"
  by (simp add: search_a_A)

text \<open>
  C5. The claim: a call of \<^verbatim>\<open>search\<close> on a mapping of strings leaves the caller's
  mapping unchanged. With \<^verbatim>\<open>caseSensitive\<close> false the loop over the keys assigns the
  lower-cased value to \<^verbatim>\<open>source[key]\<close>, in the object the caller passed (an array
  source is copied by \<^verbatim>\<open>map\<close> instead): after the call the value \<open>A\<close> of the caller
  is \<open>a\<close>.
\<close>

theorem search_overwrites_mapping:
  "fst (search defaults ''a'' (Object [(''k'', ''A'', True)]) 1) = Object [(''k'', ''a'', True)]"
proof -
  obtain results where
    "matcher defaults \<lparr> p_query = ''a'', p_tokens = Some [''a''],
           p_source = Object [(''k'', ''a'', True)], caller_source = Object [(''k'', ''a'', True)] \<rparr> = Inr results"
    using matcher_total[OF prepare_a_object] by blast
  then show ?thesis by (simp add: search_def prepare_a_object)
qed

text \<open>
  C6. The claim: for a non-empty query \<^verbatim>\<open>search\<close> never throws, whatever the source
  and the configuration. With \<^verbatim>\<open>stemming\<close> on and \<^verbatim>\<open>caseSensitive\<close> off, a source
  that is neither an array nor an object leaves \<^verbatim>\<open>tokens\<close> undefined, and the
  stemming loop reads \<^verbatim>\<open>tokens.length\<close>: a \<^verbatim>\<open>TypeError\<close>.
\<close>

theorem search_throws_on_unsupported_source:
  "snd (search (defaults\<lparr>stemming := True\<rparr>) ''a'' Unsupported 1) = Inl TypeError"
  by (simp add: search_def prepare_eval)

text \<open>
  C8. The claim: for every value of \<^verbatim>\<open>limit\<close> the returned list has at most
  \<^verbatim>\<open>limit\<close> entries. \<^verbatim>\<open>slice(0, limit)\<close> counts a negative \<^verbatim>\<open>limit\<close> from the end
  of the array, so with limit -1 and two matches one entry is returned. As amended: for
  every \<^verbatim>\<open>limit\<close> that is not negative, the returned list has at most \<^verbatim>\<open>limit\<close>
  entries. The witness is a call with two distinct matches and limit 1, where the cut
  drops one of them.
\<close>

theorem search_limit:
  assumes "0 \<le> limit"
      and "snd (search opts query source limit) = Inr (Some rs)"
  shows "int (length rs) \<le> limit"
  using assms
  by (auto simp: search_def rank_def length_slice0 split: if_splits sum.splits)

theorem search_limit_witness:
  "(0::int) \<le> 1 \<and>
   snd (search defaults ''a'' (Array [''a'', ''ab'']) 1) = Inr (Some [''a'']) \<and>
   int (length [''a'']) \<le> 1 \<and>
   set (createUniqueArray (match_array ''a'' [''a''] 2 [''a'', ''ab''])) = {''a'', ''ab''}"
proof -
  have s: "snd (search defaults ''a'' (Array [''a'', ''ab'']) 1) = Inr (Some [''a''])"
    by (simp add: search_a_a_ab_1)
  have m: "set (createUniqueArray (match_array ''a'' [''a''] 2 [''a'', ''ab''])) = {''a'', ''ab''}"
    by (simp add: match_eval levenshtein_a_a levenshtein_a_ab sortResults_a_ab
          createUniqueArray_def upt_rec)
  have "int (length [''a'']) \<le> 1"
    using search_limit [OF _ s] by simp
  then show ?thesis using s m by simp
qed

theorem search_negative_limit:
  "snd (search defaults ''a'' (Array [''a'', ''ab'']) (- 1)) = Inr (Some [''a'']) \<and>
   \<not> int (length [''a'']) \<le> - 1"
  by (simp add: search_a_a_ab)

text \<open>
  C9. For every source and every configuration, \<^verbatim>\<open>search\<close> with the empty string as
  the query returns \<^verbatim>\<open>null\<close>; the source is left as it was.
\<close>

theorem search_empty_query:
  "search opts [] source limit = (source, Inr None)"
  by (simp add: search_def)

text \<open>
  C10. If the raw match list is exactly one candidate, the empty string, \<^verbatim>\<open>search\<close>
  returns \<^verbatim>\<open>null\<close>: the test \<^verbatim>\<open>results == ""\<close> converts the array to the string of
  its entries joined by commas, which is empty. The witness reaches that list through
  the fuzzy tier, with an object whose one value is the empty string.
\<close>

theorem search_single_empty_match:
  assumes "query \<noteq> []"
      and "prepare opts query source = Inr p"
      and "matcher opts p = Inr [[]]"
  shows "snd (search opts query source limit) = Inr None"
  using assms by (simp add: search_def rank_single_empty)

theorem search_single_empty_match_witness:
  "''ab'' \<noteq> [] \<and>
   prepare defaults ''ab'' (Object [(''k'', [], True)]) =
     Inr \<lparr> p_query = ''ab'', p_tokens = Some [''ab''],
           p_source = Object [(''k'', [], True)], caller_source = Object [(''k'', [], True)] \<rparr> \<and>
   matcher defaults \<lparr> p_query = ''ab'', p_tokens = Some [''ab''],
           p_source = Object [(''k'', [], True)], caller_source = Object [(''k'', [], True)] \<rparr> = Inr [[]] \<and>
   snd (search defaults ''ab'' (Object [(''k'', [], True)]) 1) = Inr None"
  using search_single_empty_match [OF _ prepare_ab_object matcher_ab_object, of 1]
    prepare_ab_object matcher_ab_object by simp


section \<open>Further properties\<close>

lemma lower_case_offset:
  "list_all (\<lambda>(u, l). (of_char l :: nat) = of_char u + 32) (zip upper_case lower_case)"
  by (simp add: upper_case_def lower_case_def)

lemma getDataType_array: "getDataType source = Some ''array'' \<longleftrightarrow> (\<exists>xs. source = Array xs)"
  by (cases source) simp_all

lemma getDataType_object:
  "getDataType source = Some ''object'' \<longleftrightarrow>
     (\<exists>kvs. source = Object kvs \<and> ''constructor'' \<notin> set (map fst kvs))"
  by (cases source) simp_all

lemma cost_cell_diagonal: "cost_cell s s i i = 0"
  by (induction i) simp_all


text \<open>
  X1. \<^verbatim>\<open>levenshtein\<close> returns \<^verbatim>\<open>undefined\<close> exactly when its first word is the
  empty string.
\<close>

theorem levenshtein_undefined_first_word:
  "levenshtein word1 word2 = None \<longleftrightarrow> word1 = []"
  by (simp add: levenshtein_cost_cell)

text \<open>X2. The distance of a non-empty string to itself is 0.\<close>

theorem levenshtein_self:
  "levenshtein A A = (if A = [] then None else Some 0)"
  by (simp add: levenshtein_cost_cell cost_cell_diagonal)


text \<open>X3. \<^verbatim>\<open>sortResults\<close> returns a permutation of the array it is given.\<close>

theorem sortResults_permutation:
  "mset (sortResults results query) = mset results"
  by (rule sortResults_mset)

text \<open>
  X4. What a call does to the caller's source: every writable value of an object is
  replaced by its lower-case form when the query is not empty, \<^verbatim>\<open>caseSensitive\<close> is
  false and \<^verbatim>\<open>getDataType\<close> takes the source for an object; in every other case the
  source is left as it was.
\<close>

theorem search_caller_source:
  "fst (search opts query source limit) =
     (if query \<noteq> [] \<and> \<not> caseSensitive opts \<and> getDataType source = Some ''object''
      then Object (map assign_lower (properties source))
      else source)"
proof (cases "query = []")
  case True
  then show ?thesis by (simp add: search_def)
next
  case False
  let ?p0 = "fold_case opts (strip_query opts query) source"
  have c: "caller_source ?p0 =
             (if \<not> caseSensitive opts \<and> getDataType source = Some ''object''
              then Object (map assign_lower (properties source)) else source)"
    by (cases source) (auto simp: fold_case_def Let_def)
  have "fst (search opts query source limit) = caller_source ?p0"
  proof (cases "prepare opts query source")
    case (Inl e)
    then show ?thesis using False by (simp add: search_def)
  next
    case (Inr p)
    then have "caller_source p = caller_source ?p0"
      using stem_source unfolding prepare_def by blast
    then show ?thesis using False Inr by (simp add: search_def split: sum.splits)
  qed
  then show ?thesis using False c by simp
qed

text \<open>
  X5. \<^verbatim>\<open>search\<close> throws in one situation only: a non-empty query, \<^verbatim>\<open>stemming\<close> on,
  \<^verbatim>\<open>caseSensitive\<close> off and a source that \<^verbatim>\<open>getDataType\<close> takes neither for an
  array nor for an object.
\<close>

theorem search_throws_iff:
  "snd (search opts query source limit) = Inl e \<longleftrightarrow>
     query \<noteq> [] \<and> stemming opts \<and> \<not> caseSensitive opts \<and> getDataType source = None"
proof (cases "query = []")
  case True
  then show ?thesis by (simp add: search_def)
next
  case False
  let ?p0 = "fold_case opts (strip_query opts query) source"
  have e: "e = TypeError" by (cases e) simp
  have t: "p_tokens ?p0 = None \<longleftrightarrow> \<not> caseSensitive opts \<and> getDataType source = None"
    by (cases source) (auto simp: fold_case_def Let_def)
  have "snd (search opts query source limit) = Inl e \<longleftrightarrow> prepare opts query source = Inl e"
  proof (cases "prepare opts query source")
    case (Inl e')
    then show ?thesis using False by (simp add: search_def)
  next
    case (Inr p)
    from matcher_total[OF Inr] obtain results where "matcher opts p = Inr results" by blast
    then show ?thesis using False Inr by (simp add: search_def)
  qed
  also have "\<dots> \<longleftrightarrow> stemming opts \<and> p_tokens ?p0 = None"
    unfolding prepare_def using e
    by (auto simp: stem_def split: option.splits prod.splits)
  finally show ?thesis using False t by auto
qed

lemma zip_indices: "zip arr [0..<length arr] = map (\<lambda>pos. (arr ! pos, pos)) [0..<length arr]"
  by (rule nth_equalityI) simp_all

lemma createUniqueArray_positions:
  "createUniqueArray arr =
     map (\<lambda>pos. arr ! pos) (filter (\<lambda>pos. array_indexOf arr (arr ! pos) = int pos) [0..<length arr])"
  by (simp add: createUniqueArray_def zip_indices filter_map comp_def)

lemma createUniqueArray_distinct: "distinct (createUniqueArray arr)"
proof -
  let ?keep = "filter (\<lambda>pos. array_indexOf arr (arr ! pos) = int pos) [0..<length arr]"
  have "inj_on (\<lambda>pos. arr ! pos) (set ?keep)"
  proof (rule inj_onI)
    fix p q assume "p \<in> set ?keep" "q \<in> set ?keep" "arr ! p = arr ! q"
    then have "int p = int q" by simp
    then show "p = q" by simp
  qed
  then show ?thesis by (simp add: createUniqueArray_positions distinct_map)
qed


text \<open>X6. No value appears twice in a list that \<^verbatim>\<open>search\<close> returns.\<close>

theorem search_distinct:
  assumes "snd (search opts query source limit) = Inr (Some rs)"
  shows "distinct rs"
proof -
  from assms obtain p results where
    "prepare opts query source = Inr p" and
    rk: "rank results (p_query p) limit = Some rs"
    by (rule search_Some_D)
  obtain k where k: "slice0 (sortResults (createUniqueArray results) (p_query p)) limit
                     = take k (sortResults (createUniqueArray results) (p_query p))"
    using slice0_take by blast
  from rk have rs: "rs = take k (sortResults (createUniqueArray results) (p_query p))"
    by (simp add: rank_def k split: if_splits)
  have "distinct (sortResults (createUniqueArray results) (p_query p))"
    using createUniqueArray_distinct[of results]
          sortResults_mset[of "createUniqueArray results" "p_query p"]
    by (metis mset_eq_imp_distinct_iff)
  then show ?thesis unfolding rs by simp
qed


theorem search_distinct_witness:
  "snd (search defaults ''a'' (Array [''ba'', ''a'']) 2) = Inr (Some [''a'', ''ba'']) \<and>
   distinct [''a'', ''ba'']"
proof -
  have s: "snd (search defaults ''a'' (Array [''ba'', ''a'']) 2) = Inr (Some [''a'', ''ba''])"
    by (simp add: search_a_ba_a)
  from search_distinct [OF s] s show ?thesis by simp
qed

end
